theory Spec2Isabelle
  imports Complex_Main
begin

section \<open>Time slot visualizer: the row store and the timeline layout of App.js\<close>

text \<open>
  The development embeds the event handlers and the layout functions of
  \<^verbatim>\<open>src/src/App.js\<close>. Conventions of the embedding:

  \<^item> A JavaScript \<^verbatim>\<open>Date\<close> is its time value: an integer number of milliseconds of
    universal time, or the invalid date (time value NaN), which \<^verbatim>\<open>parseISO\<close>
    returns on text it cannot read and which is a truthy object like every other
    date. A time value that a date function computes is clipped as ECMAScript
    clips it: beyond \<open>8.64 * 10^15\<close> milliseconds it is the invalid date.
  \<^item> The day functions of date-fns and the formatting work on local time. The time
    zone of the machine is a parameter \<open>z\<close> of every function that reads local
    time; it may change its offset at any time value (daylight saving).
  \<^item> \<^verbatim>\<open>null\<close> is \<open>None\<close>.
  \<^item> The \<^verbatim>\<open>errors\<close> object of a row is held in a store and the row keeps its
    address: \<^verbatim>\<open>handleCopySelected\<close> copies rows with a shallow spread, so a copy
    shares the \<^verbatim>\<open>errors\<close> object of its original, and \<^verbatim>\<open>handleChange\<close> writes
    into that object in place.
\<close>

subsection \<open>Data\<close>

datatype jsdate = Date int | InvalidDate

datatype error = TypeError | RangeError

record errors_obj =
  err_ip :: string
  err_date :: string

record row =
  row_name :: string
  row_ip :: string
  row_start :: "jsdate option"
  row_end :: "jsdate option"
  row_errors :: nat
  row_selected :: bool

text \<open>
  The state of the component \<^verbatim>\<open>App\<close>: the four \<^verbatim>\<open>useState\<close> cells, and the store
  of \<^verbatim>\<open>errors\<close> objects with the next free address.
\<close>

record app =
  rows :: "row list"
  earliest :: "jsdate option"
  latest :: "jsdate option"
  selectAll :: bool
  errs :: "nat \<Rightarrow> errors_obj"
  next_addr :: nat

definition empty_errors :: errors_obj where
  "empty_errors = \<lparr>err_ip = '''', err_date = ''''\<rparr>"

definition init_app :: app where
  "init_app = \<lparr>rows = [], earliest = None, latest = None, selectAll = False,
     errs = (\<lambda>_. empty_errors), next_addr = 0\<rparr>"

subsection \<open>The bounds effect\<close>

text \<open>
  \<^verbatim>\<open>Math.min(...dates)\<close> and \<^verbatim>\<open>Math.max(...dates)\<close> followed by \<^verbatim>\<open>new Date\<close>: one
  NaN among the arguments makes the result NaN. With no argument the result is an
  infinity, which \<^verbatim>\<open>new Date\<close> turns into the invalid date.
\<close>

fun min_time :: "jsdate \<Rightarrow> jsdate \<Rightarrow> jsdate" where
  "min_time (Date a) (Date b) = Date (min a b)"
| "min_time _ _ = InvalidDate"

fun max_time :: "jsdate \<Rightarrow> jsdate \<Rightarrow> jsdate" where
  "max_time (Date a) (Date b) = Date (max a b)"
| "max_time _ _ = InvalidDate"

fun Math_min :: "jsdate list \<Rightarrow> jsdate" where
  "Math_min [] = InvalidDate"
| "Math_min [d] = min_time d d"
| "Math_min (d # ds) = min_time d (Math_min ds)"

fun Math_max :: "jsdate list \<Rightarrow> jsdate" where
  "Math_max [] = InvalidDate"
| "Math_max [d] = max_time d d"
| "Math_max (d # ds) = max_time d (Math_max ds)"

text \<open>
  \<^verbatim>\<open>rows.flatMap((row) => [row.start, row.end]).filter(Boolean)\<close>: every date object
  is truthy, only \<^verbatim>\<open>null\<close> is dropped.
\<close>

definition dates_of :: "row list \<Rightarrow> jsdate list" where
  "dates_of rs = map the (filter (\<lambda>d. d \<noteq> None) (concat (map (\<lambda>r. [row_start r, row_end r]) rs)))"

definition useEffect_rows :: "app \<Rightarrow> app" where
  "useEffect_rows s =
     (if length (rows s) > 0 then
        (let dates = dates_of (rows s) in
         if length dates > 0 then
           s\<lparr>earliest := Some (Math_min dates), latest := Some (Math_max dates)\<rparr>
         else s)
      else s)"

subsection \<open>The handlers of the row store\<close>

text \<open>Each handler is the state after its \<^verbatim>\<open>setRows\<close>; the effect runs afterwards.\<close>

definition handleAddRow :: "app \<Rightarrow> app" where
  "handleAddRow s =
     s\<lparr>rows := rows s @
            [\<lparr>row_name = '''', row_ip = '''', row_start = None, row_end = None,
              row_errors = next_addr s, row_selected = False\<rparr>],
       errs := (errs s)(next_addr s := empty_errors),
       next_addr := Suc (next_addr s)\<rparr>"

datatype field_edit =
    SetName string
  | SetIp string
  | SetStart "jsdate option"
  | SetEnd "jsdate option"
  | SetSelected bool

fun set_field :: "field_edit \<Rightarrow> row \<Rightarrow> row" where
  "set_field (SetName v) r = r\<lparr>row_name := v\<rparr>"
| "set_field (SetIp v) r = r\<lparr>row_ip := v\<rparr>"
| "set_field (SetStart v) r = r\<lparr>row_start := v\<rparr>"
| "set_field (SetEnd v) r = r\<lparr>row_end := v\<rparr>"
| "set_field (SetSelected v) r = r\<lparr>row_selected := v\<rparr>"

text \<open>
  \<^verbatim>\<open>validateIP\<close> is imported from \<^verbatim>\<open>./utils\<close> and is a parameter here. The condition
  \<^verbatim>\<open>field === 'ip' && !validateIP(value)\<close> calls it for the field \<^verbatim>\<open>ip\<close> only.
  An index past the array makes \<^verbatim>\<open>newRows[index]\<close> undefined, and the assignment
  to its property throws before \<^verbatim>\<open>setRows\<close>.
\<close>

fun ip_message :: "(string \<Rightarrow> bool) \<Rightarrow> field_edit \<Rightarrow> string" where
  "ip_message validateIP (SetIp v) = (if \<not> validateIP v then ''Invalid IP address'' else '''')"
| "ip_message validateIP _ = ''''"

definition handleChange :: "(string \<Rightarrow> bool) \<Rightarrow> app \<Rightarrow> nat \<Rightarrow> field_edit \<Rightarrow> error + app" where
  "handleChange validateIP s index fe =
     (if index < length (rows s) then
        (let r = set_field fe (rows s ! index);
             a = row_errors r
         in Inr (s\<lparr>rows := (rows s)[index := r],
                    errs := (errs s)(a := (errs s a)\<lparr>err_ip := ip_message validateIP fe\<rparr>)\<rparr>))
      else Inl TypeError)"

text \<open>\<^verbatim>\<open>rows.filter((_, i) => i !== index)\<close>, for any number \<^verbatim>\<open>index\<close>.\<close>

definition handleDeleteRow :: "app \<Rightarrow> int \<Rightarrow> app" where
  "handleDeleteRow s index =
     s\<lparr>rows := map snd (filter (\<lambda>(i, _). int i \<noteq> index) (enumerate 0 (rows s)))\<rparr>"

definition handleDeleteSelected :: "app \<Rightarrow> app" where
  "handleDeleteSelected s = s\<lparr>rows := filter (\<lambda>r. \<not> row_selected r) (rows s)\<rparr>"

definition handleCopySelected :: "app \<Rightarrow> app" where
  "handleCopySelected s =
     s\<lparr>rows := rows s @ map (\<lambda>r. r\<lparr>row_selected := False\<rparr>) (filter row_selected (rows s))\<rparr>"

definition handleSelectAll :: "app \<Rightarrow> bool \<Rightarrow> app" where
  "handleSelectAll s checked =
     s\<lparr>rows := map (\<lambda>r. r\<lparr>row_selected := checked\<rparr>) (rows s), selectAll := checked\<rparr>"

text \<open>
  \<^verbatim>\<open>splice(i, 1)\<close> takes the element at \<open>i\<close> out and \<^verbatim>\<open>splice(j, 0, x)\<close> puts \<open>x\<close> in
  at \<open>j\<close>, or at the end when \<open>j\<close> is past it. With a source index past the array
  the first splice removes nothing and \<^verbatim>\<open>reorderedRow\<close> is undefined; the array then
  holds an undefined entry and the render that follows throws on \<^verbatim>\<open>row.selected\<close>.
  A drop outside the list has no destination and changes nothing.
\<close>

definition splice_out :: "nat \<Rightarrow> 'a list \<Rightarrow> 'a list" where
  "splice_out i xs = take i xs @ drop (Suc i) xs"

definition splice_in :: "nat \<Rightarrow> 'a \<Rightarrow> 'a list \<Rightarrow> 'a list" where
  "splice_in j x xs = take j xs @ x # drop j xs"

definition handleDragEnd :: "app \<Rightarrow> nat \<Rightarrow> nat option \<Rightarrow> error + app" where
  "handleDragEnd s source destination =
     (case destination of
        None \<Rightarrow> Inr s
      | Some dest \<Rightarrow>
          if source < length (rows s) then
            Inr (s\<lparr>rows := splice_in dest (rows s ! source) (splice_out source (rows s))\<rparr>)
          else Inl TypeError)"

subsection \<open>Time zones and days\<close>

text \<open>
  A time zone, as ECMAScript reads it: \<open>tza_utc z t\<close> is the offset of local time
  at the time value \<open>t\<close> (\<^verbatim>\<open>LocalTZA(t, true)\<close>), and \<open>tza_local z l\<close> is the
  offset that the local time \<open>l\<close> stands for (\<^verbatim>\<open>LocalTZA(l, false)\<close>, which also
  settles the local times that a clock change skips or repeats). \<open>LocalTime\<close>
  and \<open>UTC\<close> are the two conversions of ECMAScript.
\<close>

record zone =
  tza_utc :: "int \<Rightarrow> int"
  tza_local :: "int \<Rightarrow> int"

definition LocalTime :: "zone \<Rightarrow> int \<Rightarrow> int" where
  "LocalTime z t = t + tza_utc z t"

definition UTC :: "zone \<Rightarrow> int \<Rightarrow> int" where
  "UTC z l = l - tza_local z l"

text \<open>A zone whose offset is \<open>c\<close> milliseconds at all times.\<close>

definition fixed_zone :: "int \<Rightarrow> zone" where
  "fixed_zone c = \<lparr>tza_utc = (\<lambda>_. c), tza_local = (\<lambda>_. c)\<rparr>"

text \<open>
  The offsets of America/New_York around its change to daylight time on
  2024-03-10: five hours behind universal time before 07:00 universal time of that
  day (02:00 local time) and four hours behind from then on. The local times from
  02:00 to 03:00 of that day are skipped and read with the offset before the
  change. The later changes of the zone are left out.
\<close>

definition new_york_2024 :: zone where
  "new_york_2024 =
     \<lparr>tza_utc = (\<lambda>t. if t < 1710054000000 then - 18000000 else - 14400000),
      tza_local = (\<lambda>l. if l < 1710039600000 then - 18000000 else - 14400000)\<rparr>"

text \<open>\<^verbatim>\<open>TimeClip\<close>: a date holds a time value of at most \<open>8.64 * 10^15\<close> in size.\<close>

definition maxTime :: int where
  "maxTime = 8640000000000000"

definition TimeClip :: "int \<Rightarrow> jsdate" where
  "TimeClip t = (if - maxTime \<le> t \<and> t \<le> maxTime then Date t else InvalidDate)"

text \<open>
  The day functions of date-fns. \<^verbatim>\<open>startOfDay\<close> is \<^verbatim>\<open>setHours(0, 0, 0, 0)\<close> and
  \<^verbatim>\<open>endOfDay\<close> is \<^verbatim>\<open>setHours(23, 59, 59, 999)\<close>: the local time is set within its
  local day and converted back. \<^verbatim>\<open>addDays\<close> returns the date for the amount 0 and
  is \<^verbatim>\<open>setDate(getDate() + amount)\<close> otherwise: the local time moves by whole local
  days and is converted back. Each returns the invalid date on the invalid date.
  In date-fns 2 and 3 the conversion \<^verbatim>\<open>toDate\<close>, which every one of them applies to
  its argument first, reads \<^verbatim>\<open>null\<close> as the invalid date.
\<close>

definition msPerDay :: int where
  "msPerDay = 24 * 60 * 60 * 1000"

fun toDate :: "jsdate option \<Rightarrow> jsdate" where
  "toDate None = InvalidDate"
| "toDate (Some d) = d"

fun startOfDay :: "zone \<Rightarrow> jsdate \<Rightarrow> jsdate" where
  "startOfDay z (Date t) = TimeClip (UTC z (LocalTime z t - LocalTime z t mod msPerDay))"
| "startOfDay z InvalidDate = InvalidDate"

fun endOfDay :: "zone \<Rightarrow> jsdate \<Rightarrow> jsdate" where
  "endOfDay z (Date t) =
     TimeClip (UTC z (LocalTime z t - LocalTime z t mod msPerDay + (msPerDay - 1)))"
| "endOfDay z InvalidDate = InvalidDate"

fun addDays :: "zone \<Rightarrow> jsdate \<Rightarrow> int \<Rightarrow> jsdate" where
  "addDays z (Date t) n =
     (if n = 0 then Date t else TimeClip (UTC z (LocalTime z t + n * msPerDay)))"
| "addDays z InvalidDate n = InvalidDate"

text \<open>
  The comparisons of two dates by \<^verbatim>\<open><\<close> and \<^verbatim>\<open>>=\<close> compare the time values as
  numbers and are false when one of them is NaN; \<^verbatim>\<open>a.getTime() === b.getTime()\<close> is
  false then as well.
\<close>

fun date_lt :: "jsdate \<Rightarrow> jsdate \<Rightarrow> bool" where
  "date_lt (Date a) (Date b) = (a < b)"
| "date_lt _ _ = False"

fun date_ge :: "jsdate \<Rightarrow> jsdate \<Rightarrow> bool" where
  "date_ge (Date a) (Date b) = (a \<ge> b)"
| "date_ge _ _ = False"

fun getTime_eq :: "jsdate \<Rightarrow> jsdate \<Rightarrow> bool" where
  "getTime_eq (Date a) (Date b) = (a = b)"
| "getTime_eq _ _ = False"

subsection \<open>Formatting\<close>

text \<open>
  The calendar fields of a local time \<open>l\<close> (the local time of a date with the time
  value \<open>t\<close> is \<open>LocalTime z t\<close>), in the proleptic Gregorian calendar of
  ECMAScript dates. The number of the day (day 0 is 1970-01-01) is split into
  the 400-year cycle it lies in (146097 days, starting on a first of March) and the
  day of that cycle; the day of the cycle into the century (36524 days, the last
  one a day longer), the group of four years (1461 days) and the year of the group
  (365 days, the last one a day longer). The day of the year counts from the first
  of March, and so does the month \<open>march_month\<close> (0 is March, 11 is February).
  \<^verbatim>\<open>getMonth\<close> counts the months from 0 for January.
\<close>

definition cycle_of :: "int \<Rightarrow> int" where
  "cycle_of t = (t div msPerDay + 719468) div 146097"

definition day_of_cycle :: "int \<Rightarrow> int" where
  "day_of_cycle t = (t div msPerDay + 719468) mod 146097"

definition century_of_cycle :: "int \<Rightarrow> int" where
  "century_of_cycle doe = min (doe div 36524) 3"

definition day_of_century :: "int \<Rightarrow> int" where
  "day_of_century doe = doe - 36524 * century_of_cycle doe"

definition year_of_quad :: "int \<Rightarrow> int" where
  "year_of_quad doe = min ((day_of_century doe mod 1461) div 365) 3"

definition year_of_cycle :: "int \<Rightarrow> int" where
  "year_of_cycle doe =
     100 * century_of_cycle doe + 4 * (day_of_century doe div 1461) + year_of_quad doe"

definition day_of_year :: "int \<Rightarrow> int" where
  "day_of_year doe = day_of_century doe mod 1461 - 365 * year_of_quad doe"

definition march_month :: "int \<Rightarrow> int" where
  "march_month doe = (5 * day_of_year doe + 2) div 153"

definition getFullYear :: "int \<Rightarrow> int" where
  "getFullYear t =
     year_of_cycle (day_of_cycle t) + 400 * cycle_of t
       + (if march_month (day_of_cycle t) < 10 then 0 else 1)"

definition getMonth :: "int \<Rightarrow> int" where
  "getMonth t =
     (if march_month (day_of_cycle t) < 10 then march_month (day_of_cycle t) + 2
      else march_month (day_of_cycle t) - 10)"

definition getDate :: "int \<Rightarrow> int" where
  "getDate t =
     day_of_year (day_of_cycle t) - (153 * march_month (day_of_cycle t) + 2) div 5 + 1"

definition getHours :: "int \<Rightarrow> int" where
  "getHours t = (t mod msPerDay) div 3600000"

definition getMinutes :: "int \<Rightarrow> int" where
  "getMinutes t = (t mod 3600000) div 60000"

definition getSeconds :: "int \<Rightarrow> int" where
  "getSeconds t = (t mod 60000) div 1000"

definition getMilliseconds :: "int \<Rightarrow> int" where
  "getMilliseconds t = t mod 1000"

definition digit_char :: "nat \<Rightarrow> char" where
  "digit_char n = ''0123456789'' ! n"

fun to_decimal :: "nat \<Rightarrow> string" where
  "to_decimal n =
     (if n < 10 then [digit_char n] else to_decimal (n div 10) @ [digit_char (n mod 10)])"

declare to_decimal.simps [simp del]

text \<open>
  \<^verbatim>\<open>addLeadingZeros\<close> of date-fns, on a number that is not negative: the decimal
  digits, padded with zeros on the left up to the target length.
\<close>

definition addLeadingZeros :: "int \<Rightarrow> nat \<Rightarrow> string" where
  "addLeadingZeros n len =
     replicate (len - length (to_decimal (nat n))) (CHR ''0'') @ to_decimal (nat n)"

text \<open>
  The token \<^verbatim>\<open>yyyy\<close> prints the year when it is positive and \<open>1 - year\<close> otherwise
  (the year of the era), with at least four digits; \<^verbatim>\<open>MM\<close>, \<^verbatim>\<open>dd\<close>, \<^verbatim>\<open>HH\<close>, \<^verbatim>\<open>mm\<close>
  and \<^verbatim>\<open>ss\<close> print two digits.
\<close>

definition fmt_date :: "int \<Rightarrow> string" where
  "fmt_date t =
     addLeadingZeros (if getFullYear t > 0 then getFullYear t else 1 - getFullYear t) 4
       @ ''-'' @ addLeadingZeros (getMonth t + 1) 2 @ ''-'' @ addLeadingZeros (getDate t) 2"

definition fmt_HH_mm :: "int \<Rightarrow> string" where
  "fmt_HH_mm t = addLeadingZeros (getHours t) 2 @ '':'' @ addLeadingZeros (getMinutes t) 2"

text \<open>
  \<^verbatim>\<open>format(date, pattern)\<close> for the three patterns App.js uses, on the local time
  of the date. It throws a \<^verbatim>\<open>RangeError\<close> on the invalid date.
\<close>

fun format_yyyy_MM_dd :: "zone \<Rightarrow> jsdate \<Rightarrow> error + string" where
  "format_yyyy_MM_dd z (Date t) = Inr (fmt_date (LocalTime z t))"
| "format_yyyy_MM_dd z InvalidDate = Inl RangeError"

fun format_HH_mm :: "zone \<Rightarrow> jsdate \<Rightarrow> error + string" where
  "format_HH_mm z (Date t) = Inr (fmt_HH_mm (LocalTime z t))"
| "format_HH_mm z InvalidDate = Inl RangeError"

fun format_yyyy_MM_dd_HH_mm_ss :: "zone \<Rightarrow> jsdate \<Rightarrow> error + string" where
  "format_yyyy_MM_dd_HH_mm_ss z (Date t) =
     Inr (fmt_date (LocalTime z t) @ '' '' @ fmt_HH_mm (LocalTime z t) @ '':''
          @ addLeadingZeros (getSeconds (LocalTime z t)) 2)"
| "format_yyyy_MM_dd_HH_mm_ss z InvalidDate = Inl RangeError"

subsection \<open>Geometry\<close>

text \<open>
  A JavaScript number that the geometry computes: a quotient of two differences of
  time values, times 100. It is kept as an exact rational (the rounding of
  doubles is not modelled), or is NaN or an infinity. A difference of two time
  values is never the negative zero, so a zero divisor is the positive zero.
\<close>

datatype jsnum = Num rat | NaN | PosInf | NegInf

text \<open>\<^verbatim>\<open>a - b\<close> on two dates or \<^verbatim>\<open>null\<close>: \<^verbatim>\<open>null\<close> counts as 0, the invalid date as NaN.\<close>

fun to_number :: "jsdate option \<Rightarrow> jsnum" where
  "to_number None = Num 0"
| "to_number (Some (Date t)) = Num (of_int t)"
| "to_number (Some InvalidDate) = NaN"

fun js_minus :: "jsnum \<Rightarrow> jsnum \<Rightarrow> jsnum" where
  "js_minus (Num a) (Num b) = Num (a - b)"
| "js_minus NaN _ = NaN"
| "js_minus _ NaN = NaN"
| "js_minus PosInf PosInf = NaN"
| "js_minus NegInf NegInf = NaN"
| "js_minus PosInf _ = PosInf"
| "js_minus NegInf _ = NegInf"
| "js_minus _ PosInf = NegInf"
| "js_minus _ NegInf = PosInf"

fun js_div :: "jsnum \<Rightarrow> jsnum \<Rightarrow> jsnum" where
  "js_div (Num a) (Num b) =
     (if b = 0 then (if a = 0 then NaN else if a > 0 then PosInf else NegInf)
      else Num (a / b))"
| "js_div NaN _ = NaN"
| "js_div _ NaN = NaN"
| "js_div (Num a) _ = Num 0"
| "js_div PosInf (Num b) = (if b < 0 then NegInf else PosInf)"
| "js_div NegInf (Num b) = (if b < 0 then PosInf else NegInf)"
| "js_div _ _ = NaN"

fun js_times :: "jsnum \<Rightarrow> jsnum \<Rightarrow> jsnum" where
  "js_times (Num a) (Num b) = Num (a * b)"
| "js_times NaN _ = NaN"
| "js_times _ NaN = NaN"
| "js_times PosInf (Num b) = (if b = 0 then NaN else if b > 0 then PosInf else NegInf)"
| "js_times NegInf (Num b) = (if b = 0 then NaN else if b > 0 then NegInf else PosInf)"
| "js_times (Num a) PosInf = (if a = 0 then NaN else if a > 0 then PosInf else NegInf)"
| "js_times (Num a) NegInf = (if a = 0 then NaN else if a > 0 then NegInf else PosInf)"
| "js_times PosInf PosInf = PosInf"
| "js_times NegInf NegInf = PosInf"
| "js_times _ _ = NegInf"

text \<open>
  A value of the style properties \<^verbatim>\<open>left\<close> and \<^verbatim>\<open>width\<close>: the bare number \<open>n\<close>
  (so many pixels), the text \<^verbatim>\<open>p%\<close>, or the text \<^verbatim>\<open>calc(p% + npx)\<close>.
\<close>

datatype css_length = Number int | Percent jsnum | Calc jsnum int

definition offset :: int where
  "offset = 5"

definition calculateWidth :: "app \<Rightarrow> jsdate option \<Rightarrow> jsdate option \<Rightarrow> jsnum" where
  "calculateWidth s start end' =
     (if earliest s = None \<or> latest s = None \<or> start = None \<or> end' = None then Num 0
      else
        (let totalDuration = js_minus (to_number (latest s)) (to_number (earliest s));
             rowDuration = js_minus (to_number end') (to_number start)
         in js_times (js_div rowDuration totalDuration) (Num 100)))"

definition calculateLeftPosition :: "app \<Rightarrow> jsdate option \<Rightarrow> css_length" where
  "calculateLeftPosition s start =
     (if earliest s = None \<or> start = None then Number offset
      else
        (let totalDuration = js_minus (to_number (latest s)) (to_number (earliest s));
             startDuration = js_minus (to_number start) (to_number (earliest s));
             positionPercentage = js_times (js_div startDuration totalDuration) (Num 100)
         in Calc positionPercentage offset))"

subsection \<open>The bar of a row\<close>

record segment =
  seg_start :: jsdate
  seg_end :: jsdate

text \<open>
  The \<^verbatim>\<open>while\<close> loop of \<^verbatim>\<open>renderBarSegments\<close>, with its variables \<^verbatim>\<open>currentStart\<close>,
  \<^verbatim>\<open>currentEnd\<close> and \<^verbatim>\<open>segments\<close> as arguments, and the \<^verbatim>\<open>push\<close> that follows it.
  Nothing in the loop itself makes \<^verbatim>\<open>currentEnd\<close> grow: that is up to the day
  functions and so to the time zone. The result is \<open>None\<close> when the loop does not
  end.
\<close>

partial_function (option) segments_loop ::
  "zone \<Rightarrow> jsdate \<Rightarrow> jsdate \<Rightarrow> jsdate \<Rightarrow> segment list \<Rightarrow> segment list option" where
  "segments_loop z currentStart currentEnd end' segments =
     (if date_lt currentEnd end' then
        segments_loop z (startOfDay z (addDays z currentEnd 1))
          (endOfDay z (startOfDay z (addDays z currentEnd 1))) end'
          (segments @ [\<lparr>seg_start = currentStart, seg_end = currentEnd\<rparr>])
      else Some (segments @ [\<lparr>seg_start = currentStart, seg_end = end'\<rparr>]))"

definition bar_segments :: "zone \<Rightarrow> jsdate \<Rightarrow> jsdate \<Rightarrow> segment list option" where
  "bar_segments z start end' = segments_loop z start (endOfDay z start) end' []"

definition barColors :: "string list" where
  "barColors = [''#03AED2'', ''#FDDE55'', ''#1E88E5'', ''#FBC02D'']"

text \<open>
  \<^verbatim>\<open>Math.floor((segment.start - startOfDay(earliest)) / (24 * 60 * 60 * 1000))\<close>, or
  \<open>None\<close> for NaN. The quotient is taken exactly.
\<close>

definition dayIndex :: "zone \<Rightarrow> app \<Rightarrow> segment \<Rightarrow> int option" where
  "dayIndex z s seg =
     (case (seg_start seg, startOfDay z (toDate (earliest s))) of
        (Date a, Date e) \<Rightarrow> Some ((a - e) div msPerDay)
      | _ \<Rightarrow> None)"

text \<open>
  The remainder \<^verbatim>\<open>%\<close> has the sign of the dividend. \<^verbatim>\<open>barColors[i]\<close> is undefined
  (\<open>None\<close>) for NaN and for a negative index.
\<close>

definition js_rem :: "int \<Rightarrow> int \<Rightarrow> int" where
  "js_rem a b = sgn a * (\<bar>a\<bar> mod \<bar>b\<bar>)"

definition segment_color :: "int option \<Rightarrow> string option" where
  "segment_color di =
     (case di of
        None \<Rightarrow> None
      | Some d \<Rightarrow>
          (let i = js_rem d (int (length barColors))
           in if 0 \<le> i then Some (barColors ! nat i) else None))"

record box =
  box_left :: css_length
  box_width :: css_length
  box_height :: string
  box_backgroundColor :: "string option"
  box_start_label :: "(string \<times> string) option"
  box_end_label :: "(string \<times> string) option"

text \<open>
  The label of a segment end: the two lines \<^verbatim>\<open>yyyy-MM-dd\<close> and \<^verbatim>\<open>HH:mm\<close>, rendered
  only under its condition.
\<close>

definition label_of :: "zone \<Rightarrow> bool \<Rightarrow> jsdate \<Rightarrow> error + (string \<times> string) option" where
  "label_of z shown d =
     (if shown then
        (case format_yyyy_MM_dd z d of
           Inl e \<Rightarrow> Inl e
         | Inr day \<Rightarrow>
             (case format_HH_mm z d of
                Inl e \<Rightarrow> Inl e
              | Inr time \<Rightarrow> Inr (Some (day, time))))
      else Inr None)"

definition render_segment ::
  "zone \<Rightarrow> app \<Rightarrow> jsdate \<Rightarrow> jsdate \<Rightarrow> segment \<Rightarrow> error + box" where
  "render_segment z s start end' seg =
     (let color = segment_color (dayIndex z s seg);
          isFirstSegment = getTime_eq (seg_start seg) start;
          isLastSegment = getTime_eq (seg_end seg) end'
      in case label_of z isFirstSegment (seg_start seg) of
           Inl e \<Rightarrow> Inl e
         | Inr firstLabel \<Rightarrow>
             (case label_of z isLastSegment (seg_end seg) of
                Inl e \<Rightarrow> Inl e
              | Inr lastLabel \<Rightarrow>
                  Inr \<lparr>box_left = calculateLeftPosition s (Some (seg_start seg)),
                       box_width = Percent (calculateWidth s (Some (seg_start seg)) (Some (seg_end seg))),
                       box_height = ''20px'',
                       box_backgroundColor = color,
                       box_start_label = firstLabel,
                       box_end_label = lastLabel\<rparr>))"

fun map_result :: "('a \<Rightarrow> error + 'b) \<Rightarrow> 'a list \<Rightarrow> error + 'b list" where
  "map_result f [] = Inr []"
| "map_result f (x # xs) =
     (case f x of
        Inl e \<Rightarrow> Inl e
      | Inr y \<Rightarrow> (case map_result f xs of Inl e \<Rightarrow> Inl e | Inr ys \<Rightarrow> Inr (y # ys)))"

text \<open>
  What \<^verbatim>\<open>renderBarSegments\<close> returns: \<^verbatim>\<open>null\<close>, the one red element of a range that
  does not run forward, or the array of the segments' elements. It returns
  nothing (\<open>None\<close>) when the loop of the segments does not end, and throws when a
  label cannot be formatted.
\<close>

datatype rendered = RNull | RElement box | RArray "box list"

definition invalid_marker :: box where
  "invalid_marker =
     \<lparr>box_left = Percent (Num 0), box_width = Percent (Num 100), box_height = ''20px'',
      box_backgroundColor = Some ''red'', box_start_label = None, box_end_label = None\<rparr>"

definition renderBarSegments ::
  "zone \<Rightarrow> app \<Rightarrow> jsdate option \<Rightarrow> jsdate option \<Rightarrow> (error + rendered) option" where
  "renderBarSegments z s start end' =
     (case (start, end') of
        (Some st, Some en) \<Rightarrow>
          if date_ge st en then Some (Inr (RElement invalid_marker))
          else
            (case bar_segments z st en of
               None \<Rightarrow> None
             | Some segments \<Rightarrow>
                 (case map_result (render_segment z s st en) segments of
                    Inl e \<Rightarrow> Some (Inl e)
                  | Inr boxes \<Rightarrow> Some (Inr (RArray boxes))))
      | _ \<Rightarrow> Some (Inr RNull))"

subsection \<open>Export and import\<close>

text \<open>
  A character of a text is a code unit below 256. \<^verbatim>\<open>trim\<close> removes the white space
  and the line ends of JavaScript at both ends of a text; below 256 these are the
  characters 9 to 13, the blank and the no-break space.
\<close>

definition TAB :: char where "TAB = CHR 0x09"
definition LF :: char where "LF = CHR 0x0A"
definition CR :: char where "CR = CHR 0x0D"

definition is_space :: "char \<Rightarrow> bool" where
  "is_space c = (c \<in> set [CHR 0x09, CHR 0x0A, CHR 0x0B, CHR 0x0C, CHR 0x0D, CHR 0x20, CHR 0xA0])"

definition trim :: "string \<Rightarrow> string" where
  "trim s = rev (dropWhile is_space (rev (dropWhile is_space s)))"

text \<open>
  \<^verbatim>\<open>s.split(c)\<close> for a separator of one character, and \<^verbatim>\<open>s.split(/\r\n|\n/)\<close>. Both
  return one more piece than there are separators, so the empty text gives one
  empty piece.
\<close>

fun split_on :: "char \<Rightarrow> string \<Rightarrow> string list" where
  "split_on c [] = [[]]"
| "split_on c (x # xs) =
     (if x = c then [] # split_on c xs
      else (case split_on c xs of l # ls \<Rightarrow> (x # l) # ls | [] \<Rightarrow> [[x]]))"

fun split_lines :: "string \<Rightarrow> string list" where
  "split_lines [] = [[]]"
| "split_lines [x] = (if x = LF then [[], []] else [[x]])"
| "split_lines (x # y # xs) =
     (if x = CR \<and> y = LF then [] # split_lines xs
      else if x = LF then [] # split_lines (y # xs)
      else (case split_lines (y # xs) of l # ls \<Rightarrow> (x # l) # ls | [] \<Rightarrow> [[x]]))"

fun join :: "string \<Rightarrow> string list \<Rightarrow> string" where
  "join sep [] = []"
| "join sep [l] = l"
| "join sep (l # m # ls) = l @ sep @ join sep (m # ls)"

text \<open>
  \<^verbatim>\<open>handleExport\<close>: the content of the file. \<^verbatim>\<open>format\<close> throws on an invalid date,
  and with it the handler.
\<close>

definition export_date :: "zone \<Rightarrow> jsdate option \<Rightarrow> error + string" where
  "export_date z d = (case d of None \<Rightarrow> Inr [] | Some x \<Rightarrow> format_yyyy_MM_dd_HH_mm_ss z x)"

definition export_line :: "zone \<Rightarrow> row \<Rightarrow> error + string" where
  "export_line z r =
     (case export_date z (row_start r) of
        Inl e \<Rightarrow> Inl e
      | Inr startFormatted \<Rightarrow>
          (case export_date z (row_end r) of
             Inl e \<Rightarrow> Inl e
           | Inr endFormatted \<Rightarrow>
               Inr (row_name r @ [TAB] @ row_ip r @ [TAB] @ startFormatted @ [TAB] @ endFormatted)))"

definition handleExport :: "zone \<Rightarrow> app \<Rightarrow> error + string" where
  "handleExport z s =
     (case map_result (export_line z) (rows s) of
        Inl e \<Rightarrow> Inl e
      | Inr ls \<Rightarrow> Inr (join [CR, LF] ls))"

text \<open>
  \<^verbatim>\<open>handleImport\<close>, from the text of the file. \<^verbatim>\<open>parseISO\<close> is a function of the
  library date-fns; it is the parameter \<open>parse\<close> here, a function from a text to a
  date (the invalid date on a text it cannot read). The destructuring
  \<^verbatim>\<open>[name, ip, start, end] = line.split('\t')\<close> leaves a field undefined (\<open>None\<close>)
  when the line has fewer pieces; an undefined or empty field is falsy. Every
  imported row gets an \<^verbatim>\<open>errors\<close> object of its own.
\<close>

definition field :: "string list \<Rightarrow> nat \<Rightarrow> string option" where
  "field fs i = (if i < length fs then Some (fs ! i) else None)"

definition text_or_empty :: "string option \<Rightarrow> string" where
  "text_or_empty f = (case f of None \<Rightarrow> [] | Some v \<Rightarrow> v)"

definition import_date :: "(string \<Rightarrow> jsdate) \<Rightarrow> string option \<Rightarrow> jsdate option" where
  "import_date parse f =
     (case f of None \<Rightarrow> None | Some v \<Rightarrow> if v = [] then None else Some (parse v))"

definition import_line :: "(string \<Rightarrow> jsdate) \<Rightarrow> nat \<Rightarrow> string \<Rightarrow> row" where
  "import_line parse a line =
     \<lparr>row_name = text_or_empty (field (split_on TAB line) 0),
      row_ip = text_or_empty (field (split_on TAB line) 1),
      row_start = import_date parse (field (split_on TAB line) 2),
      row_end = import_date parse (field (split_on TAB line) 3),
      row_errors = a,
      row_selected = False\<rparr>"

definition import_lines :: "string \<Rightarrow> string list" where
  "import_lines txt = filter (\<lambda>line. trim line \<noteq> []) (split_lines txt)"

definition handleImport :: "(string \<Rightarrow> jsdate) \<Rightarrow> app \<Rightarrow> string \<Rightarrow> app" where
  "handleImport parse s txt =
     s\<lparr>rows := map (\<lambda>(i, line). import_line parse (next_addr s + i) line)
                (enumerate 0 (import_lines txt)),
       errs := (\<lambda>a. if next_addr s \<le> a \<and> a < next_addr s + length (import_lines txt)
                     then empty_errors else errs s a),
       next_addr := next_addr s + length (import_lines txt)\<rparr>"

subsection \<open>Events\<close>

text \<open>
  One step of the component: a handler, and after its \<^verbatim>\<open>setRows\<close> the effect that
  depends on \<^verbatim>\<open>rows\<close>. A handler that throws leaves the state as it was; a drop
  with no destination sets nothing, so no effect runs.
\<close>

datatype event =
    AddRow
  | Change nat field_edit
  | DeleteRow int
  | DeleteSelected
  | CopySelected
  | SelectAll bool
  | DragEnd nat "nat option"
  | Import string

fun step :: "(string \<Rightarrow> bool) \<Rightarrow> (string \<Rightarrow> jsdate) \<Rightarrow> event \<Rightarrow> app \<Rightarrow> error + app" where
  "step validateIP parse AddRow s = Inr (useEffect_rows (handleAddRow s))"
| "step validateIP parse (Change index fe) s =
     (case handleChange validateIP s index fe of
        Inl e \<Rightarrow> Inl e
      | Inr s' \<Rightarrow> Inr (useEffect_rows s'))"
| "step validateIP parse (DeleteRow index) s = Inr (useEffect_rows (handleDeleteRow s index))"
| "step validateIP parse DeleteSelected s = Inr (useEffect_rows (handleDeleteSelected s))"
| "step validateIP parse CopySelected s = Inr (useEffect_rows (handleCopySelected s))"
| "step validateIP parse (SelectAll checked) s = Inr (useEffect_rows (handleSelectAll s checked))"
| "step validateIP parse (DragEnd source None) s = Inr s"
| "step validateIP parse (DragEnd source (Some dest)) s =
     (case handleDragEnd s source (Some dest) of
        Inl e \<Rightarrow> Inl e
      | Inr s' \<Rightarrow> Inr (useEffect_rows s'))"
| "step validateIP parse (Import txt) s = Inr (useEffect_rows (handleImport parse s txt))"

inductive reachable :: "(string \<Rightarrow> bool) \<Rightarrow> (string \<Rightarrow> jsdate) \<Rightarrow> app \<Rightarrow> bool"
  for validateIP :: "string \<Rightarrow> bool" and parse :: "string \<Rightarrow> jsdate" where
  reachable_init: "reachable validateIP parse init_app"
| reachable_step:
    "reachable validateIP parse s \<Longrightarrow> step validateIP parse ev s = Inr s'
       \<Longrightarrow> reachable validateIP parse s'"

text \<open>
  A sequence of events, from a state: an event whose handler throws changes
  nothing.
\<close>

fun run :: "(string \<Rightarrow> bool) \<Rightarrow> (string \<Rightarrow> jsdate) \<Rightarrow> event list \<Rightarrow> app \<Rightarrow> app" where
  "run validateIP parse [] s = s"
| "run validateIP parse (ev # evs) s =
     (case step validateIP parse ev s of
        Inl e \<Rightarrow> run validateIP parse evs s
      | Inr s' \<Rightarrow> run validateIP parse evs s')"

subsection \<open>The invariant of the bounds\<close>

text \<open>
  What the effect establishes: when the rows hold a date, the bounds are what
  \<^verbatim>\<open>Math.min\<close> and \<^verbatim>\<open>Math.max\<close> make of the dates of the rows.
\<close>

definition bounds_ok :: "app \<Rightarrow> bool" where
  "bounds_ok s = (dates_of (rows s) \<noteq> [] \<longrightarrow>
     earliest s = Some (Math_min (dates_of (rows s)))
     \<and> latest s = Some (Math_max (dates_of (rows s))))"

section \<open>Properties\<close>

subsection \<open>Reordering\<close>

lemma splice_out_splice_in:
  "j \<le> length xs \<Longrightarrow> splice_out j (splice_in j x xs) = xs"
  by (simp add: splice_out_def splice_in_def)

lemma splice_in_nth:
  "j \<le> length xs \<Longrightarrow> splice_in j x xs ! j = x"
  by (simp add: splice_in_def nth_append)

lemma splice_in_splice_out:
  "i < length xs \<Longrightarrow> splice_in i (xs ! i) (splice_out i xs) = xs"
  using id_take_nth_drop [of i xs] by (simp add: splice_out_def splice_in_def min_def)

lemma length_splice_out:
  "i < length xs \<Longrightarrow> length (splice_out i xs) = length xs - 1"
  by (simp add: splice_out_def)

lemma length_splice_in:
  "length (splice_in j x xs) = Suc (length xs)"
  by (simp add: splice_in_def)

text \<open>
  C9. For two distinct indices \<open>i\<close> and \<open>j\<close> of the row sequence, dragging the row
  at \<open>i\<close> to \<open>j\<close> and then the row at \<open>j\<close> back to \<open>i\<close> succeeds both times and
  leaves the state, and so the order of the rows, as it was.
\<close>

theorem reorder_round_trip:
  assumes "i < length (rows s)" and "j < length (rows s)" and "i \<noteq> j"
  shows "\<exists>s1. handleDragEnd s i (Some j) = Inr s1 \<and> handleDragEnd s1 j (Some i) = Inr s"
proof -
  let ?ys = "splice_out i (rows s)"
  let ?zs = "splice_in j (rows s ! i) ?ys"
  let ?s1 = "s\<lparr>rows := ?zs\<rparr>"
  have j_le: "j \<le> length ?ys"
    using assms by (simp add: length_splice_out)
  have len: "length ?zs = length (rows s)"
    using assms by (simp add: length_splice_in length_splice_out)
  have first: "handleDragEnd s i (Some j) = Inr ?s1"
    using assms by (simp add: handleDragEnd_def)
  have "splice_in i (?zs ! j) (splice_out j ?zs) = rows s"
    using assms j_le by (simp add: splice_in_nth splice_out_splice_in splice_in_splice_out)
  then have "handleDragEnd ?s1 j (Some i) = Inr s"
    using assms len by (simp add: handleDragEnd_def)
  with first show ?thesis by blast
qed

theorem reorder_round_trip_witness:
  "\<exists>s1. handleDragEnd (handleAddRow (handleAddRow (handleAddRow init_app))) 0 (Some 2) = Inr s1
     \<and> handleDragEnd s1 2 (Some 0) = Inr (handleAddRow (handleAddRow (handleAddRow init_app)))"
  by (rule reorder_round_trip) (simp_all add: handleAddRow_def init_app_def)

subsection \<open>Deleting a row\<close>

lemma filter_enumerate_all:
  "\<forall>p \<in> set ps. P p \<Longrightarrow> filter P ps = ps"
  by (induction ps) auto

text \<open>
  C10. \<^verbatim>\<open>handleDeleteRow\<close> returns a state for every integer index (it has no
  failing branch), and for an index that is negative or not below the number of
  rows the state it returns is the one it was given.
\<close>

theorem deleteRow_out_of_range:
  assumes "index < 0 \<or> int (length (rows s)) \<le> index"
  shows "handleDeleteRow s index = s"
proof -
  have "\<forall>p \<in> set (enumerate 0 (rows s)). (\<lambda>(i, _). int i \<noteq> index) p"
    using assms by (auto simp: in_set_enumerate_eq)
  then have "filter (\<lambda>(i, _). int i \<noteq> index) (enumerate 0 (rows s)) = enumerate 0 (rows s)"
    by (rule filter_enumerate_all)
  then show ?thesis
    by (simp add: handleDeleteRow_def)
qed

theorem deleteRow_out_of_range_witness:
  "handleDeleteRow (handleAddRow init_app) (- 1) = handleAddRow init_app
   \<and> handleDeleteRow (handleAddRow init_app) 1 = handleAddRow init_app"
  using deleteRow_out_of_range [of "- 1" "handleAddRow init_app"]
    deleteRow_out_of_range [of 1 "handleAddRow init_app"]
  by (simp add: handleAddRow_def init_app_def)

subsection \<open>The segments of a bar\<close>

lemma msPerDay_pos: "0 < msPerDay"
  by (simp add: msPerDay_def)

lemma segments_loop_step:
  "date_lt ce en \<Longrightarrow>
   segments_loop z cs ce en acc =
     segments_loop z (startOfDay z (addDays z ce 1)) (endOfDay z (startOfDay z (addDays z ce 1))) en
       (acc @ [\<lparr>seg_start = cs, seg_end = ce\<rparr>])"
  by (subst segments_loop.simps) simp

lemma segments_loop_stop:
  "\<not> date_lt ce en \<Longrightarrow>
   segments_loop z cs ce en acc = Some (acc @ [\<lparr>seg_start = cs, seg_end = en\<rparr>])"
  by (subst segments_loop.simps) simp

lemma UTC_LocalTime_shift:
  assumes "tza_utc z t = c" and "tza_local z (t + d + c) = c"
  shows "UTC z (LocalTime z t + d) = t + d"
proof -
  have "LocalTime z t + d = t + d + c"
    using assms(1) by (simp add: LocalTime_def)
  then show ?thesis
    unfolding UTC_def by (simp only: assms(2))
qed

lemma startOfDay_const:
  assumes "tza_utc z t = c" and "tza_local z (t - (t + c) mod msPerDay + c) = c"
  shows "startOfDay z (Date t) = TimeClip (t - (t + c) mod msPerDay)"
proof -
  have l: "LocalTime z t = t + c"
    using assms(1) by (simp add: LocalTime_def)
  have "t + (- ((t + c) mod msPerDay)) + c = t - (t + c) mod msPerDay + c"
    by simp
  with assms(2) have "tza_local z (t + (- ((t + c) mod msPerDay)) + c) = c"
    by (simp only:)
  from UTC_LocalTime_shift [OF assms(1) this] show ?thesis
    by (simp add: l)
qed

lemma endOfDay_const:
  assumes "tza_utc z t = c"
    and "tza_local z (t - (t + c) mod msPerDay + (msPerDay - 1) + c) = c"
  shows "endOfDay z (Date t) = TimeClip (t - (t + c) mod msPerDay + (msPerDay - 1))"
proof -
  have l: "LocalTime z t = t + c"
    using assms(1) by (simp add: LocalTime_def)
  have "t + (- ((t + c) mod msPerDay) + (msPerDay - 1)) + c
      = t - (t + c) mod msPerDay + (msPerDay - 1) + c"
    by simp
  with assms(2) have "tza_local z (t + (- ((t + c) mod msPerDay) + (msPerDay - 1)) + c) = c"
    by (simp only:)
  from UTC_LocalTime_shift [OF assms(1) this]
  have u: "UTC z (LocalTime z t + (- ((t + c) mod msPerDay) + (msPerDay - 1)))
      = t + (- ((t + c) mod msPerDay) + (msPerDay - 1))" .
  have e1: "LocalTime z t - LocalTime z t mod msPerDay + (msPerDay - 1)
      = LocalTime z t + (- ((t + c) mod msPerDay) + (msPerDay - 1))"
    by (simp add: l)
  have e2: "t + (- ((t + c) mod msPerDay) + (msPerDay - 1))
      = t - (t + c) mod msPerDay + (msPerDay - 1)"
    by simp
  show ?thesis
    by (simp only: endOfDay.simps e1 u e2)
qed

lemma addDays_const:
  assumes "tza_utc z t = c" and "tza_local z (t + n * msPerDay + c) = c"
  shows "addDays z (Date t) n = (if n = 0 then Date t else TimeClip (t + n * msPerDay))"
  using UTC_LocalTime_shift [OF assms] by simp



lemma last_ms_mod:
  assumes "(e + 1 + c) mod msPerDay = 0"
  shows "(e + msPerDay + c) mod msPerDay = msPerDay - 1"
proof -
  from assms obtain k where k: "e + 1 + c = msPerDay * k"
    by (auto simp: mod_eq_0_iff_dvd)
  have "e + msPerDay + c = (msPerDay - 1) + k * msPerDay"
    using k by (simp add: algebra_simps)
  then have "(e + msPerDay + c) mod msPerDay = (msPerDay - 1) mod msPerDay"
    by (metis mod_mult_self1)
  also have "\<dots> = msPerDay - 1"
    using msPerDay_pos by (intro mod_pos_pos_trivial) simp_all
  finally show ?thesis .
qed

lemma next_day_start:
  assumes offs: "\<forall>t. lo \<le> t \<and> t \<le> hi \<longrightarrow> tza_utc z t = c \<and> tza_local z (t + c) = c"
    and lo: "lo \<le> e" and hi: "e + msPerDay \<le> hi"
    and m0: "(e + 1 + c) mod msPerDay = 0"
    and v: "- maxTime \<le> e" "e + msPerDay \<le> maxTime"
  shows "startOfDay z (addDays z (Date e) 1) = Date (e + 1)"
    and "endOfDay z (Date (e + 1)) = Date (e + msPerDay)"
proof -
  note m1 = last_ms_mod [OF m0]
  have D: "1 \<le> msPerDay" using msPerDay_pos by simp
  have at_e: "tza_utc z e = c"
    using offs [rule_format, of e] lo hi D by simp
  have at_1: "tza_utc z (e + 1) = c" "tza_local z (e + 1 + c) = c"
    using offs [rule_format, of "e + 1"] lo hi D by simp_all
  have at_D: "tza_utc z (e + msPerDay) = c" "tza_local z (e + msPerDay + c) = c"
    using offs [rule_format, of "e + msPerDay"] lo hi D by simp_all
  have "tza_local z (e + 1 * msPerDay + c) = c"
    using at_D(2) by simp
  from addDays_const [OF at_e this]
  have a: "addDays z (Date e) 1 = Date (e + msPerDay)"
    using v D by (simp add: TimeClip_def)
  have x1: "e + msPerDay - (e + msPerDay + c) mod msPerDay + c = e + 1 + c"
    using m1 by simp
  have "tza_local z (e + msPerDay - (e + msPerDay + c) mod msPerDay + c) = c"
    unfolding x1 by (rule at_1(2))
  from startOfDay_const [OF at_D(1) this]
  have "startOfDay z (Date (e + msPerDay)) = TimeClip (e + 1)"
    using m1 by simp
  then show "startOfDay z (addDays z (Date e) 1) = Date (e + 1)"
    using a v D by (simp add: TimeClip_def)
  have x2: "e + 1 - (e + 1 + c) mod msPerDay + (msPerDay - 1) + c = e + msPerDay + c"
    using m0 by simp
  have "tza_local z (e + 1 - (e + 1 + c) mod msPerDay + (msPerDay - 1) + c) = c"
    unfolding x2 by (rule at_D(2))
  from endOfDay_const [OF at_1(1) this]
  have "endOfDay z (Date (e + 1)) = TimeClip (e + msPerDay)"
    using m0 by simp
  then show "endOfDay z (Date (e + 1)) = Date (e + msPerDay)"
    using v D by (simp add: TimeClip_def)
qed

lemma first_day_end:
  assumes offs: "\<forall>t. lo \<le> t \<and> t \<le> hi \<longrightarrow> tza_utc z t = c \<and> tza_local z (t + c) = c"
    and lo: "lo \<le> a" and hi: "a + msPerDay \<le> hi"
    and v: "- maxTime \<le> a" "a - (a + c) mod msPerDay + (msPerDay - 1) \<le> maxTime"
  shows "endOfDay z (Date a) = Date (a - (a + c) mod msPerDay + (msPerDay - 1))"
proof -
  have m: "0 \<le> (a + c) mod msPerDay" "(a + c) mod msPerDay < msPerDay"
    using msPerDay_pos by simp_all
  have at_a: "tza_utc z a = c"
    using offs [rule_format, of a] lo hi msPerDay_pos by simp
  have "tza_local z (a - (a + c) mod msPerDay + (msPerDay - 1) + c) = c"
    using offs [rule_format, of "a - (a + c) mod msPerDay + (msPerDay - 1)"] lo hi m
    by simp
  from endOfDay_const [OF at_a this] show ?thesis
    using v m by (simp add: TimeClip_def)
qed






lemmas zone_eval = LocalTime_def UTC_def TimeClip_def maxTime_def msPerDay_def
  new_york_2024_def fixed_zone_def



lemma bar_segments_new_york_spring:
  "bar_segments new_york_2024 (Date 1709996400000) (Date 1710266400000) =
     Some [\<lparr>seg_start = Date 1709996400000, seg_end = Date 1710046799999\<rparr>,
      \<lparr>seg_start = Date 1710046800000, seg_end = Date 1710129599999\<rparr>,
      \<lparr>seg_start = Date 1710129600000, seg_end = Date 1710215999999\<rparr>,
      \<lparr>seg_start = Date 1710216000000, seg_end = Date 1710266400000\<rparr>]"
  by (simp add: bar_segments_def segments_loop.simps zone_eval)



subsection \<open>A range that does not run forward, and an unset end\<close>

text \<open>
  C3. When \<^verbatim>\<open>start >= end\<close> holds for the two dates of a row (both are set and
  valid then), \<^verbatim>\<open>renderBarSegments\<close> returns one element and no array of segments:
  the marker that is as wide as the cell (left 0%, width 100%) and red, a colour
  that is not in the palette of the segments. When \<open>start\<close> or \<open>end\<close> is \<^verbatim>\<open>null\<close>
  it returns \<^verbatim>\<open>null\<close>. Both hold in every time zone.
\<close>

theorem invalid_range_marker:
  "(date_ge st en \<longrightarrow>
      renderBarSegments z s (Some st) (Some en) = Some (Inr (RElement invalid_marker))
      \<and> box_left invalid_marker = Percent (Num 0)
      \<and> box_width invalid_marker = Percent (Num 100)
      \<and> box_backgroundColor invalid_marker = Some ''red''
      \<and> ''red'' \<notin> set barColors)
   \<and> (start = None \<or> end' = None \<longrightarrow> renderBarSegments z s start end' = Some (Inr RNull))"
  by (auto simp: renderBarSegments_def invalid_marker_def barColors_def split: option.splits)

theorem invalid_range_marker_witness:
  "renderBarSegments new_york_2024 init_app (Some (Date 1704103200000)) (Some (Date 1704103200000))
     = Some (Inr (RElement invalid_marker))
   \<and> renderBarSegments new_york_2024 init_app (Some (Date 1704290400000)) (Some (Date 1704103200000))
     = Some (Inr (RElement invalid_marker))
   \<and> renderBarSegments new_york_2024 init_app None (Some (Date 1704103200000)) = Some (Inr RNull)
   \<and> renderBarSegments new_york_2024 init_app (Some (Date 1704103200000)) None = Some (Inr RNull)"
  using invalid_range_marker [of "Date 1704103200000" "Date 1704103200000" new_york_2024 init_app
      None "Some (Date 1704103200000)"]
    invalid_range_marker [of "Date 1704290400000" "Date 1704103200000" new_york_2024 init_app
      "Some (Date 1704103200000)" None]
  by simp

subsection \<open>The colour of a segment\<close>

lemma day_difference:
  "(x - (e - e mod msPerDay)) div msPerDay = x div msPerDay - e div msPerDay"
proof -
  have "x - (e - e mod msPerDay) = x + (- (e div msPerDay)) * msPerDay"
    by (simp add: minus_mod_eq_mult_div)
  then show ?thesis
    using msPerDay_pos by (simp only: div_mult_self1)
qed

lemma segment_color_nonneg:
  "0 \<le> d \<Longrightarrow> segment_color (Some d) = Some (barColors ! nat (d mod 4))"
  by (simp add: segment_color_def js_rem_def barColors_def Let_def sgn_if)

text \<open>
  Where the offset of the zone is the same, \<open>c\<close>, at the bound \<open>earliest\<close>, at the
  start of its local day and at the start \<open>x\<close> of a segment that is not before the
  bound, the day index of the segment is the number of local calendar days from the
  day of \<open>earliest\<close> to the day of \<open>x\<close>, and the colour is the entry of the palette
  at that number modulo 4.
\<close>

lemma segment_color_constant_offset:
  assumes "earliest s = Some (Date e)" and "seg_start seg = Date x" and "e \<le> x"
    and "tza_utc z e = c" and "tza_local z (e - (e + c) mod msPerDay + c) = c"
    and "tza_utc z x = c"
    and "- maxTime \<le> e - (e + c) mod msPerDay" and "e \<le> maxTime"
  shows "dayIndex z s seg = Some (LocalTime z x div msPerDay - LocalTime z e div msPerDay)"
    and "segment_color (dayIndex z s seg)
      = Some (barColors ! nat ((LocalTime z x div msPerDay - LocalTime z e div msPerDay) mod 4))"
proof -
  have m: "0 \<le> (e + c) mod msPerDay"
    using msPerDay_pos by simp
  have "startOfDay z (Date e) = TimeClip (e - (e + c) mod msPerDay)"
    using assms(4,5) by (rule startOfDay_const)
  then have st: "startOfDay z (Date e) = Date (e - (e + c) mod msPerDay)"
    using assms(7,8) m by (simp add: TimeClip_def)
  have "x - (e - (e + c) mod msPerDay) = (x + c) - ((e + c) - (e + c) mod msPerDay)"
    by simp
  then have "(x - (e - (e + c) mod msPerDay)) div msPerDay
      = (x + c) div msPerDay - (e + c) div msPerDay"
    by (simp only: day_difference)
  moreover have "LocalTime z x = x + c" "LocalTime z e = e + c"
    using assms(4,6) by (simp_all add: LocalTime_def)
  ultimately show d: "dayIndex z s seg
      = Some (LocalTime z x div msPerDay - LocalTime z e div msPerDay)"
    using assms(1,2) st by (simp add: dayIndex_def)
  have "(e + c) div msPerDay \<le> (x + c) div msPerDay"
    using assms(3) msPerDay_pos by (intro zdiv_mono1) simp_all
  then have "0 \<le> LocalTime z x div msPerDay - LocalTime z e div msPerDay"
    using \<open>LocalTime z x = x + c\<close> \<open>LocalTime z e = e + c\<close> by simp
  then show "segment_color (dayIndex z s seg)
      = Some (barColors ! nat ((LocalTime z x div msPerDay - LocalTime z e div msPerDay) mod 4))"
    unfolding d by (rule segment_color_nonneg)
qed

lemma to_decimal_numeral:
  "to_decimal (numeral k) =
     (if (numeral k :: nat) < 10 then [digit_char (numeral k)]
      else to_decimal (numeral k div 10) @ [digit_char (numeral k mod 10)])"
  by (rule to_decimal.simps)

lemma to_decimal_small:
  "to_decimal 0 = ''0''"
  "to_decimal (Suc 0) = ''1''"
  by (simp_all add: to_decimal.simps [of 0] to_decimal.simps [of "Suc 0"] digit_char_def)

lemma replicate_small:
  "replicate 1 x = [x]" "replicate 2 x = [x, x]" "replicate 3 x = [x, x, x]"
  by (simp_all add: numeral_2_eq_2 numeral_3_eq_3)

lemmas format_eval = fmt_date_def fmt_HH_mm_def getFullYear_def getMonth_def getDate_def
  cycle_of_def day_of_cycle_def century_of_cycle_def day_of_century_def year_of_quad_def
  year_of_cycle_def day_of_year_def march_month_def
  getHours_def getMinutes_def getSeconds_def msPerDay_def
  addLeadingZeros_def to_decimal_numeral to_decimal_small digit_char_def replicate_small

lemma format_examples:
  "fmt_date 1704103200000 = ''2024-01-01''"
  "fmt_HH_mm 1704103200000 = ''10:00''"
  "fmt_date 1704290400000 = ''2024-01-03''"
  "fmt_HH_mm 1704290400000 = ''14:00''"
  by (simp_all add: format_eval)

subsection \<open>The example of the specification\<close>

lemma example_days:
  assumes c: "\<bar>c\<bar> \<le> msPerDay"
    and offs: "\<forall>t. 1704103200000 - c \<le> t \<and> t \<le> 1704290400000 - c + msPerDay \<longrightarrow>
                  tza_utc z t = c \<and> tza_local z (t + c) = c"
  shows "endOfDay z (Date (1704103200000 - c)) = Date (1704153599999 - c)"
    and "startOfDay z (addDays z (Date (1704153599999 - c)) 1) = Date (1704153600000 - c)"
    and "endOfDay z (Date (1704153600000 - c)) = Date (1704239999999 - c)"
    and "startOfDay z (addDays z (Date (1704239999999 - c)) 1) = Date (1704240000000 - c)"
    and "endOfDay z (Date (1704240000000 - c)) = Date (1704326399999 - c)"
    and "startOfDay z (Date (1704153600000 - c)) = Date (1704153600000 - c)"
    and "startOfDay z (Date (1704290400000 - c)) = Date (1704240000000 - c)"
    and "LocalTime z (1704103200000 - c) = 1704103200000"
    and "LocalTime z (1704153600000 - c) = 1704153600000"
    and "LocalTime z (1704290400000 - c) = 1704290400000"
proof -
  have cb: "- 86400000 \<le> c" "c \<le> 86400000"
    using c by (simp_all add: msPerDay_def abs_le_iff)
  have at: "tza_utc z (k - c) = c \<and> tza_local z k = c"
    if "1704103200000 \<le> k" "k \<le> 1704376800000" for k
    using offs [rule_format, of "k - c"] that by (simp add: msPerDay_def)
  show "endOfDay z (Date (1704103200000 - c)) = Date (1704153599999 - c)"
    using first_day_end [OF offs, of "1704103200000 - c"] cb
    by (simp add: msPerDay_def maxTime_def)
  show "startOfDay z (addDays z (Date (1704153599999 - c)) 1) = Date (1704153600000 - c)"
    using next_day_start(1) [OF offs, of "1704153599999 - c"] cb
    by (simp add: msPerDay_def maxTime_def)
  show "endOfDay z (Date (1704153600000 - c)) = Date (1704239999999 - c)"
    using next_day_start(2) [OF offs, of "1704153599999 - c"] cb
    by (simp add: msPerDay_def maxTime_def)
  show "startOfDay z (addDays z (Date (1704239999999 - c)) 1) = Date (1704240000000 - c)"
    using next_day_start(1) [OF offs, of "1704239999999 - c"] cb
    by (simp add: msPerDay_def maxTime_def)
  show "endOfDay z (Date (1704240000000 - c)) = Date (1704326399999 - c)"
    using next_day_start(2) [OF offs, of "1704239999999 - c"] cb
    by (simp add: msPerDay_def maxTime_def)
  show "startOfDay z (Date (1704153600000 - c)) = Date (1704153600000 - c)"
    using startOfDay_const [of z "1704153600000 - c" c] at [of 1704153600000] cb
    by (simp add: msPerDay_def maxTime_def TimeClip_def)
  show "startOfDay z (Date (1704290400000 - c)) = Date (1704240000000 - c)"
    using startOfDay_const [of z "1704290400000 - c" c] at [of 1704290400000]
      at [of 1704240000000] cb
    by (simp add: msPerDay_def maxTime_def TimeClip_def)
  show "LocalTime z (1704103200000 - c) = 1704103200000"
    "LocalTime z (1704153600000 - c) = 1704153600000"
    "LocalTime z (1704290400000 - c) = 1704290400000"
    using at [of 1704103200000] at [of 1704153600000] at [of 1704290400000]
    by (simp_all add: LocalTime_def)
qed


text \<open>
  C1. Let the offset of the time zone be \<open>c\<close>, at most a day in size, at all times
  from \<open>start\<close> = 2024-01-01 10:00 local time to one day after \<open>end\<close> = 2024-01-03
  14:00 local time (the time values 1704103200000 and 1704290400000, less \<open>c\<close>).
  Then in any state of the component the bar has exactly three segments. The
  first begins at \<open>start\<close> and its element carries the label 2024-01-01, 10:00 on
  the left and none on the right; the last ends at \<open>end\<close> and carries the label
  2024-01-03, 14:00 on the right and none on the left; the one between them runs
  from the start to the end of the local day 2024-01-02 and carries no label.
\<close>

theorem three_segments_example:
  assumes "\<bar>c\<bar> \<le> msPerDay"
    and "\<forall>t. 1704103200000 - c \<le> t \<and> t \<le> 1704290400000 - c + msPerDay \<longrightarrow>
            tza_utc z t = c \<and> tza_local z (t + c) = c"
  shows "\<exists>b1 b2 b3.
     renderBarSegments z s (Some (Date (1704103200000 - c))) (Some (Date (1704290400000 - c)))
       = Some (Inr (RArray [b1, b2, b3]))
     \<and> bar_segments z (Date (1704103200000 - c)) (Date (1704290400000 - c)) =
         Some [\<lparr>seg_start = Date (1704103200000 - c),
                 seg_end = endOfDay z (Date (1704103200000 - c))\<rparr>,
               \<lparr>seg_start = startOfDay z (Date (1704153600000 - c)),
                 seg_end = endOfDay z (Date (1704153600000 - c))\<rparr>,
               \<lparr>seg_start = startOfDay z (Date (1704290400000 - c)),
                 seg_end = Date (1704290400000 - c)\<rparr>]
     \<and> format_yyyy_MM_dd_HH_mm_ss z (Date (1704103200000 - c)) = Inr ''2024-01-01 10:00:00''
     \<and> format_yyyy_MM_dd_HH_mm_ss z (Date (1704153600000 - c)) = Inr ''2024-01-02 00:00:00''
     \<and> format_yyyy_MM_dd_HH_mm_ss z (Date (1704290400000 - c)) = Inr ''2024-01-03 14:00:00''
     \<and> box_start_label b1 = Some (''2024-01-01'', ''10:00'') \<and> box_end_label b1 = None
     \<and> box_start_label b2 = None \<and> box_end_label b2 = None
     \<and> box_start_label b3 = None \<and> box_end_label b3 = Some (''2024-01-03'', ''14:00'')"
proof -
  note ed = example_days [OF assms]
  have fmts: "format_yyyy_MM_dd_HH_mm_ss z (Date (1704103200000 - c)) = Inr ''2024-01-01 10:00:00''"
    "format_yyyy_MM_dd_HH_mm_ss z (Date (1704153600000 - c)) = Inr ''2024-01-02 00:00:00''"
    "format_yyyy_MM_dd_HH_mm_ss z (Date (1704290400000 - c)) = Inr ''2024-01-03 14:00:00''"
    by (simp_all add: ed(8,9,10) format_eval)
  have loop: "bar_segments z (Date (1704103200000 - c)) (Date (1704290400000 - c)) =
         Some [\<lparr>seg_start = Date (1704103200000 - c), seg_end = Date (1704153599999 - c)\<rparr>,
               \<lparr>seg_start = Date (1704153600000 - c), seg_end = Date (1704239999999 - c)\<rparr>,
               \<lparr>seg_start = Date (1704240000000 - c), seg_end = Date (1704290400000 - c)\<rparr>]"
    unfolding bar_segments_def ed(1)
    by (simp add: segments_loop_step segments_loop_stop ed(2,3,4,5)
        del: startOfDay.simps endOfDay.simps addDays.simps)
  have segs: "bar_segments z (Date (1704103200000 - c)) (Date (1704290400000 - c)) =
         Some [\<lparr>seg_start = Date (1704103200000 - c),
                 seg_end = endOfDay z (Date (1704103200000 - c))\<rparr>,
               \<lparr>seg_start = startOfDay z (Date (1704153600000 - c)),
                 seg_end = endOfDay z (Date (1704153600000 - c))\<rparr>,
               \<lparr>seg_start = startOfDay z (Date (1704290400000 - c)),
                 seg_end = Date (1704290400000 - c)\<rparr>]"
    unfolding loop ed(1,3,6,7) by (rule refl)
  have "\<exists>b1 b2 b3.
     renderBarSegments z s (Some (Date (1704103200000 - c))) (Some (Date (1704290400000 - c)))
       = Some (Inr (RArray [b1, b2, b3]))
     \<and> box_start_label b1 = Some (''2024-01-01'', ''10:00'') \<and> box_end_label b1 = None
     \<and> box_start_label b2 = None \<and> box_end_label b2 = None
     \<and> box_start_label b3 = None \<and> box_end_label b3 = Some (''2024-01-03'', ''14:00'')"
    by (simp add: renderBarSegments_def loop render_segment_def label_of_def ed(8,10)
        format_examples)
  with fmts segs show ?thesis by blast
qed

text \<open>The example in the zone of universal time, where the offset is 0.\<close>

theorem three_segments_example_witness:
  "\<exists>b1 b2 b3.
     renderBarSegments (fixed_zone 0) init_app (Some (Date 1704103200000)) (Some (Date 1704290400000))
       = Some (Inr (RArray [b1, b2, b3]))
     \<and> bar_segments (fixed_zone 0) (Date 1704103200000) (Date 1704290400000) =
         Some [\<lparr>seg_start = Date 1704103200000,
                 seg_end = endOfDay (fixed_zone 0) (Date 1704103200000)\<rparr>,
               \<lparr>seg_start = startOfDay (fixed_zone 0) (Date 1704153600000),
                 seg_end = endOfDay (fixed_zone 0) (Date 1704153600000)\<rparr>,
               \<lparr>seg_start = startOfDay (fixed_zone 0) (Date 1704290400000),
                 seg_end = Date 1704290400000\<rparr>]
     \<and> format_yyyy_MM_dd_HH_mm_ss (fixed_zone 0) (Date 1704103200000) = Inr ''2024-01-01 10:00:00''
     \<and> format_yyyy_MM_dd_HH_mm_ss (fixed_zone 0) (Date 1704153600000) = Inr ''2024-01-02 00:00:00''
     \<and> format_yyyy_MM_dd_HH_mm_ss (fixed_zone 0) (Date 1704290400000) = Inr ''2024-01-03 14:00:00''
     \<and> box_start_label b1 = Some (''2024-01-01'', ''10:00'') \<and> box_end_label b1 = None
     \<and> box_start_label b2 = None \<and> box_end_label b2 = None
     \<and> box_start_label b3 = None \<and> box_end_label b3 = Some (''2024-01-03'', ''14:00'')"
proof -
  have "\<bar>0 :: int\<bar> \<le> msPerDay"
    by (simp add: msPerDay_def)
  moreover have "\<forall>t. 1704103200000 - 0 \<le> t \<and> t \<le> 1704290400000 - 0 + msPerDay \<longrightarrow>
      tza_utc (fixed_zone 0) t = 0 \<and> tza_local (fixed_zone 0) (t + 0) = 0"
    by (simp add: fixed_zone_def)
  ultimately show ?thesis
    using three_segments_example [of 0 "fixed_zone 0" init_app]
    by (simp del: startOfDay.simps endOfDay.simps format_yyyy_MM_dd_HH_mm_ss.simps)
qed

subsection \<open>The bounds\<close>

lemma reachable_run:
  "reachable validateIP parse s \<Longrightarrow> reachable validateIP parse (run validateIP parse evs s)"
proof (induction evs arbitrary: s)
  case Nil
  then show ?case by simp
next
  case (Cons ev evs)
  show ?case
  proof (cases "step validateIP parse ev s")
    case (Inl e)
    with Cons show ?thesis by simp
  next
    case (Inr s')
    with Cons.prems have "reachable validateIP parse s'"
      by (rule reachable_step)
    with Cons.IH Inr show ?thesis by simp
  qed
qed

lemma set_dates_of:
  "set (dates_of rs) = {d. \<exists>r \<in> set rs. row_start r = Some d \<or> row_end r = Some d}"
proof (induction rs)
  case Nil
  show ?case by (simp add: dates_of_def)
next
  case (Cons r rs)
  have "dates_of (r # rs) = dates_of [r] @ dates_of rs"
    by (simp add: dates_of_def)
  moreover have "set (dates_of [r]) = {d. row_start r = Some d \<or> row_end r = Some d}"
    by (cases "row_start r"; cases "row_end r") (auto simp: dates_of_def)
  ultimately show ?case
    using Cons.IH by auto
qed

lemma Math_min_invalid:
  "InvalidDate \<in> set ds \<Longrightarrow> Math_min ds = InvalidDate"
  by (induction ds rule: Math_min.induct) auto

lemma Math_max_invalid:
  "InvalidDate \<in> set ds \<Longrightarrow> Math_max ds = InvalidDate"
  by (induction ds rule: Math_max.induct) auto

lemma Math_min_valid:
  "ds \<noteq> [] \<Longrightarrow> InvalidDate \<notin> set ds \<Longrightarrow>
   \<exists>lo. Math_min ds = Date lo \<and> Date lo \<in> set ds \<and> (\<forall>t. Date t \<in> set ds \<longrightarrow> lo \<le> t)"
proof (induction ds rule: Math_min.induct)
  case 1
  then show ?case by simp
next
  case (2 d)
  then show ?case by (cases d) auto
next
  case (3 d e ds)
  then obtain lo where lo: "Math_min (e # ds) = Date lo" "Date lo \<in> set (e # ds)"
      "\<forall>t. Date t \<in> set (e # ds) \<longrightarrow> lo \<le> t"
    by auto
  from 3 obtain a where a: "d = Date a" by (cases d) auto
  show ?case
    using lo a by (auto simp: min_def)
qed

lemma Math_max_valid:
  "ds \<noteq> [] \<Longrightarrow> InvalidDate \<notin> set ds \<Longrightarrow>
   \<exists>hi. Math_max ds = Date hi \<and> Date hi \<in> set ds \<and> (\<forall>t. Date t \<in> set ds \<longrightarrow> t \<le> hi)"
proof (induction ds rule: Math_max.induct)
  case 1
  then show ?case by simp
next
  case (2 d)
  then show ?case by (cases d) auto
next
  case (3 d e ds)
  then obtain hi where hi: "Math_max (e # ds) = Date hi" "Date hi \<in> set (e # ds)"
      "\<forall>t. Date t \<in> set (e # ds) \<longrightarrow> t \<le> hi"
    by auto
  from 3 obtain a where a: "d = Date a" by (cases d) auto
  show ?case
    using hi a by (auto simp: max_def)
qed

lemma rows_useEffect [simp]: "rows (useEffect_rows s) = rows s"
  by (simp add: useEffect_rows_def Let_def)

lemma useEffect_no_dates:
  "dates_of (rows s) = [] \<Longrightarrow> useEffect_rows s = s"
  by (simp add: useEffect_rows_def Let_def)

lemma useEffect_dates:
  "dates_of (rows s) \<noteq> [] \<Longrightarrow>
   earliest (useEffect_rows s) = Some (Math_min (dates_of (rows s)))
   \<and> latest (useEffect_rows s) = Some (Math_max (dates_of (rows s)))"
  by (auto simp: useEffect_rows_def Let_def dates_of_def)

lemma bounds_ok_useEffect: "bounds_ok (useEffect_rows s)"
  using useEffect_dates [of s] by (simp add: bounds_ok_def)

lemma step_bounds_ok:
  "step validateIP parse ev s = Inr s' \<Longrightarrow> bounds_ok s \<Longrightarrow> bounds_ok s'"
  by (cases "(validateIP, parse, ev, s)" rule: step.cases)
     (auto simp: bounds_ok_useEffect split: sum.splits)

lemma reachable_bounds_ok:
  "reachable validateIP parse s \<Longrightarrow> bounds_ok s"
proof (induction rule: reachable.induct)
  case reachable_init
  show ?case by (simp add: bounds_ok_def init_app_def dates_of_def)
next
  case (reachable_step s ev s')
  then show ?case by (blast intro: step_bounds_ok)
qed

lemma handler_keeps_bounds:
  "earliest (handleAddRow s) = earliest s" "latest (handleAddRow s) = latest s"
  "earliest (handleDeleteRow s i) = earliest s" "latest (handleDeleteRow s i) = latest s"
  "earliest (handleDeleteSelected s) = earliest s" "latest (handleDeleteSelected s) = latest s"
  "earliest (handleCopySelected s) = earliest s" "latest (handleCopySelected s) = latest s"
  "earliest (handleSelectAll s c) = earliest s" "latest (handleSelectAll s c) = latest s"
  "earliest (handleImport parse s txt) = earliest s" "latest (handleImport parse s txt) = latest s"
  by (simp_all add: handleAddRow_def handleDeleteRow_def handleDeleteSelected_def
      handleCopySelected_def handleSelectAll_def handleImport_def)

lemma handleChange_keeps_bounds:
  "handleChange validateIP s i fe = Inr s' \<Longrightarrow> earliest s' = earliest s \<and> latest s' = latest s"
  by (auto simp: handleChange_def Let_def split: if_splits)

lemma handleDragEnd_keeps_bounds:
  "handleDragEnd s i d = Inr s' \<Longrightarrow> earliest s' = earliest s \<and> latest s' = latest s"
  by (auto simp: handleDragEnd_def split: option.splits if_splits)

lemma step_as_effect:
  assumes "step validateIP parse ev s = Inr s'"
  shows "s' = s \<or> (\<exists>x. s' = useEffect_rows x \<and> earliest x = earliest s \<and> latest x = latest s)"
proof (cases ev)
  case (Change i fe)
  with assms obtain x where "handleChange validateIP s i fe = Inr x" "s' = useEffect_rows x"
    by (auto split: sum.splits)
  then show ?thesis using handleChange_keeps_bounds by blast
next
  case (DragEnd i d)
  show ?thesis
  proof (cases d)
    case None
    with DragEnd assms show ?thesis by simp
  next
    case (Some j)
    with DragEnd assms obtain x where "handleDragEnd s i (Some j) = Inr x" "s' = useEffect_rows x"
      by (auto split: sum.splits)
    then show ?thesis using handleDragEnd_keeps_bounds by blast
  qed
next
  case AddRow
  with assms show ?thesis using handler_keeps_bounds(1,2) by auto
next
  case (DeleteRow i)
  with assms show ?thesis using handler_keeps_bounds(3,4) by auto
next
  case DeleteSelected
  with assms show ?thesis using handler_keeps_bounds(5,6) by auto
next
  case CopySelected
  with assms show ?thesis using handler_keeps_bounds(7,8) by auto
next
  case (SelectAll c)
  with assms show ?thesis using handler_keeps_bounds(9,10) by auto
next
  case (Import content)
  with assms show ?thesis using handler_keeps_bounds(11,12) by auto
qed

lemma step_no_dates_keeps_bounds:
  assumes "step validateIP parse ev s = Inr s'" and "dates_of (rows s') = []"
  shows "earliest s' = earliest s \<and> latest s' = latest s"
proof -
  from step_as_effect [OF assms(1)]
  consider "s' = s" | x where "s' = useEffect_rows x" "earliest x = earliest s" "latest x = latest s"
    by blast
  then show ?thesis
  proof cases
    case 1
    then show ?thesis by simp
  next
    case 2
    from 2(1) assms(2) have "dates_of (rows x) = []" by simp
    then have "useEffect_rows x = x" by (rule useEffect_no_dates)
    with 2 show ?thesis by simp
  qed
qed

text \<open>
  C7, as the code has it. In every state that a sequence of events reaches from the
  initial one: when some row has a start or an end, and all of these are valid
  dates, \<open>earliest\<close> is the least and \<open>latest\<close> the greatest of them; when one of
  them is an invalid date, both bounds are the invalid date. The effect sets the
  bounds only when there is a date: an event after which no row has a start or an
  end leaves both bounds as they were before it, so they are absent only as long
  as no row has had a date.
\<close>

theorem bounds_of_reachable:
  assumes "reachable validateIP parse s"
  shows "({d. \<exists>r \<in> set (rows s). row_start r = Some d \<or> row_end r = Some d} \<noteq> {}
          \<and> InvalidDate \<notin> {d. \<exists>r \<in> set (rows s). row_start r = Some d \<or> row_end r = Some d}
        \<longrightarrow> (\<exists>lo hi. earliest s = Some (Date lo) \<and> latest s = Some (Date hi)
              \<and> Date lo \<in> {d. \<exists>r \<in> set (rows s). row_start r = Some d \<or> row_end r = Some d}
              \<and> Date hi \<in> {d. \<exists>r \<in> set (rows s). row_start r = Some d \<or> row_end r = Some d}
              \<and> (\<forall>t. Date t \<in> {d. \<exists>r \<in> set (rows s). row_start r = Some d \<or> row_end r = Some d}
                    \<longrightarrow> lo \<le> t \<and> t \<le> hi)))
     \<and> (InvalidDate \<in> {d. \<exists>r \<in> set (rows s). row_start r = Some d \<or> row_end r = Some d}
        \<longrightarrow> earliest s = Some InvalidDate \<and> latest s = Some InvalidDate)
     \<and> (\<forall>ev s'. step validateIP parse ev s = Inr s'
          \<and> {d. \<exists>r \<in> set (rows s'). row_start r = Some d \<or> row_end r = Some d} = {}
        \<longrightarrow> earliest s' = earliest s \<and> latest s' = latest s)"
proof -
  let ?D = "{d. \<exists>r \<in> set (rows s). row_start r = Some d \<or> row_end r = Some d}"
  have D: "set (dates_of (rows s)) = ?D" by (rule set_dates_of)
  have ok: "bounds_ok s" using assms by (rule reachable_bounds_ok)
  have valid: "?D \<noteq> {} \<and> InvalidDate \<notin> ?D
        \<longrightarrow> (\<exists>lo hi. earliest s = Some (Date lo) \<and> latest s = Some (Date hi)
              \<and> Date lo \<in> ?D \<and> Date hi \<in> ?D \<and> (\<forall>t. Date t \<in> ?D \<longrightarrow> lo \<le> t \<and> t \<le> hi))"
  proof
    assume a: "?D \<noteq> {} \<and> InvalidDate \<notin> ?D"
    then have ne: "dates_of (rows s) \<noteq> []" and inv: "InvalidDate \<notin> set (dates_of (rows s))"
      unfolding D [symmetric] by auto
    from Math_min_valid [OF ne inv] obtain lo where lo: "Math_min (dates_of (rows s)) = Date lo"
        "Date lo \<in> set (dates_of (rows s))" "\<forall>t. Date t \<in> set (dates_of (rows s)) \<longrightarrow> lo \<le> t"
      by blast
    from Math_max_valid [OF ne inv] obtain hi where hi: "Math_max (dates_of (rows s)) = Date hi"
        "Date hi \<in> set (dates_of (rows s))" "\<forall>t. Date t \<in> set (dates_of (rows s)) \<longrightarrow> t \<le> hi"
      by blast
    have "earliest s = Some (Date lo)" "latest s = Some (Date hi)"
      using ok ne lo(1) hi(1) by (simp_all add: bounds_ok_def)
    with lo(2,3) hi(2,3) show "\<exists>lo hi. earliest s = Some (Date lo) \<and> latest s = Some (Date hi)
              \<and> Date lo \<in> ?D \<and> Date hi \<in> ?D \<and> (\<forall>t. Date t \<in> ?D \<longrightarrow> lo \<le> t \<and> t \<le> hi)"
      unfolding D by blast
  qed
  have invalid: "InvalidDate \<in> ?D \<longrightarrow> earliest s = Some InvalidDate \<and> latest s = Some InvalidDate"
  proof
    assume "InvalidDate \<in> ?D"
    then have i: "InvalidDate \<in> set (dates_of (rows s))" unfolding D .
    then have "dates_of (rows s) \<noteq> []" by auto
    with ok i show "earliest s = Some InvalidDate \<and> latest s = Some InvalidDate"
      by (simp add: bounds_ok_def Math_min_invalid Math_max_invalid)
  qed
  have keep: "\<forall>ev s'. step validateIP parse ev s = Inr s'
          \<and> {d. \<exists>r \<in> set (rows s'). row_start r = Some d \<or> row_end r = Some d} = {}
        \<longrightarrow> earliest s' = earliest s \<and> latest s' = latest s"
  proof (intro allI impI)
    fix ev s'
    assume a: "step validateIP parse ev s = Inr s'
          \<and> {d. \<exists>r \<in> set (rows s'). row_start r = Some d \<or> row_end r = Some d} = {}"
    then have "set (dates_of (rows s')) = {}" by (simp add: set_dates_of)
    then have "dates_of (rows s') = []" by simp
    with a show "earliest s' = earliest s \<and> latest s' = latest s"
      using step_no_dates_keeps_bounds by blast
  qed
  from valid invalid keep show ?thesis by blast
qed

lemmas run_eval = run.simps step.simps handleAddRow_def handleChange_def handleDeleteRow_def
  useEffect_rows_def dates_of_def init_app_def Let_def

theorem bounds_of_reachable_witness:
  "earliest (run (\<lambda>_. True) (\<lambda>_. InvalidDate)
      [AddRow, Change 0 (SetStart (Some (Date 1704290400000))),
       Change 0 (SetEnd (Some (Date 1704103200000))), AddRow] init_app)
     = Some (Date 1704103200000)
   \<and> latest (run (\<lambda>_. True) (\<lambda>_. InvalidDate)
      [AddRow, Change 0 (SetStart (Some (Date 1704290400000))),
       Change 0 (SetEnd (Some (Date 1704103200000))), AddRow] init_app)
     = Some (Date 1704290400000)"
proof -
  let ?s = "run (\<lambda>_. True) (\<lambda>_. InvalidDate)
      [AddRow, Change 0 (SetStart (Some (Date 1704290400000))),
       Change 0 (SetEnd (Some (Date 1704103200000))), AddRow] init_app"
  have r: "reachable (\<lambda>_. True) (\<lambda>_. InvalidDate) ?s"
    by (rule reachable_run [OF reachable_init])
  have rows: "rows ?s =
      [\<lparr>row_name = [], row_ip = [], row_start = Some (Date 1704290400000),
        row_end = Some (Date 1704103200000), row_errors = 0, row_selected = False\<rparr>,
       \<lparr>row_name = [], row_ip = [], row_start = None, row_end = None, row_errors = 1,
        row_selected = False\<rparr>]"
    by (simp add: run_eval)
  have D: "{d. \<exists>r \<in> set (rows ?s). row_start r = Some d \<or> row_end r = Some d}
      = {Date 1704290400000, Date 1704103200000}"
    unfolding rows by auto
  from bounds_of_reachable [OF r] obtain lo hi where
    "earliest ?s = Some (Date lo)" "latest ?s = Some (Date hi)"
    "Date lo \<in> {Date 1704290400000, Date 1704103200000}"
    "Date hi \<in> {Date 1704290400000, Date 1704103200000}"
    "\<forall>t. Date t \<in> {Date 1704290400000, Date 1704103200000} \<longrightarrow> lo \<le> t \<and> t \<le> hi"
    unfolding D by auto
  then show ?thesis by auto
qed

text \<open>
  The claim C7 as stated asks for absent bounds whenever no row has a date. After
  a row is added, given a start and deleted again, there is no row left and both
  bounds still hold the start that was deleted.
\<close>

theorem stale_bounds_after_delete:
  "reachable (\<lambda>_. True) (\<lambda>_. InvalidDate)
     (run (\<lambda>_. True) (\<lambda>_. InvalidDate)
        [AddRow, Change 0 (SetStart (Some (Date 1704103200000))), DeleteRow 0] init_app)
   \<and> rows (run (\<lambda>_. True) (\<lambda>_. InvalidDate)
        [AddRow, Change 0 (SetStart (Some (Date 1704103200000))), DeleteRow 0] init_app) = []
   \<and> earliest (run (\<lambda>_. True) (\<lambda>_. InvalidDate)
        [AddRow, Change 0 (SetStart (Some (Date 1704103200000))), DeleteRow 0] init_app)
       = Some (Date 1704103200000)
   \<and> latest (run (\<lambda>_. True) (\<lambda>_. InvalidDate)
        [AddRow, Change 0 (SetStart (Some (Date 1704103200000))), DeleteRow 0] init_app)
       = Some (Date 1704103200000)"
proof -
  have "reachable (\<lambda>_. True) (\<lambda>_. InvalidDate)
     (run (\<lambda>_. True) (\<lambda>_. InvalidDate)
        [AddRow, Change 0 (SetStart (Some (Date 1704103200000))), DeleteRow 0] init_app)"
    by (rule reachable_run [OF reachable_init])
  moreover have "rows (run (\<lambda>_. True) (\<lambda>_. InvalidDate)
        [AddRow, Change 0 (SetStart (Some (Date 1704103200000))), DeleteRow 0] init_app) = []
   \<and> earliest (run (\<lambda>_. True) (\<lambda>_. InvalidDate)
        [AddRow, Change 0 (SetStart (Some (Date 1704103200000))), DeleteRow 0] init_app)
       = Some (Date 1704103200000)
   \<and> latest (run (\<lambda>_. True) (\<lambda>_. InvalidDate)
        [AddRow, Change 0 (SetStart (Some (Date 1704103200000))), DeleteRow 0] init_app)
       = Some (Date 1704103200000)"
    by (simp add: run_eval)
  ultimately show ?thesis by blast
qed

subsection \<open>The colour of a segment at a clock change\<close>

lemma spring_days:
  "fmt_date (LocalTime new_york_2024 1709996400000) = ''2024-03-09''"
  "fmt_date (LocalTime new_york_2024 1710046800000) = ''2024-03-10''"
  "fmt_date (LocalTime new_york_2024 1710129600000) = ''2024-03-11''"
  "fmt_date (LocalTime new_york_2024 1710216000000) = ''2024-03-12''"
  "fmt_HH_mm (LocalTime new_york_2024 1709996400000) = ''10:00''"
  "fmt_HH_mm (LocalTime new_york_2024 1710266400000) = ''14:00''"
  "fmt_date (LocalTime new_york_2024 1710266400000) = ''2024-03-12''"
  by (simp_all add: LocalTime_def new_york_2024_def format_eval)

text \<open>
  C5 at a clock change. In New York a row is added and given the start 2024-03-09
  10:00 and the end 2024-03-12 14:00 local time, so \<open>earliest\<close> is its start. The
  clocks go forward in the night of 2024-03-10, and that local day has 23 hours.
  The bar has four segments, which begin on the local days 2024-03-09, 03-10, 03-11
  and 03-12: 0, 1, 2 and 3 calendar days after the day of \<open>earliest\<close>. The code
  divides the time from the start of the day of \<open>earliest\<close> by 24 hours and rounds
  down, which gives the day indices 0, 1, 1 and 2: the segment of 2024-03-11 begins
  47 hours after the start of 2024-03-09. So the elements have the colours
  \<open>barColors[0]\<close>, \<open>barColors[1]\<close>, \<open>barColors[1]\<close> and \<open>barColors[2]\<close>, the second
  and the third the same, where the calendar days ask for \<open>barColors[0]\<close> to
  \<open>barColors[3]\<close>.
\<close>

theorem clock_change_repeats_colour:
  "\<exists>s boxes.
     run validateIP parse
       [AddRow, Change 0 (SetStart (Some (Date 1709996400000))),
        Change 0 (SetEnd (Some (Date 1710266400000)))] init_app = s
     \<and> earliest s = Some (Date 1709996400000)
     \<and> row_start (rows s ! 0) = Some (Date 1709996400000)
     \<and> row_end (rows s ! 0) = Some (Date 1710266400000)
     \<and> format_yyyy_MM_dd_HH_mm_ss new_york_2024 (Date 1709996400000) = Inr ''2024-03-09 10:00:00''
     \<and> format_yyyy_MM_dd_HH_mm_ss new_york_2024 (Date 1710266400000) = Inr ''2024-03-12 14:00:00''
     \<and> bar_segments new_york_2024 (Date 1709996400000) (Date 1710266400000) =
         Some [\<lparr>seg_start = Date 1709996400000, seg_end = Date 1710046799999\<rparr>,
               \<lparr>seg_start = Date 1710046800000, seg_end = Date 1710129599999\<rparr>,
               \<lparr>seg_start = Date 1710129600000, seg_end = Date 1710215999999\<rparr>,
               \<lparr>seg_start = Date 1710216000000, seg_end = Date 1710266400000\<rparr>]
     \<and> format_yyyy_MM_dd new_york_2024 (Date 1709996400000) = Inr ''2024-03-09''
     \<and> format_yyyy_MM_dd new_york_2024 (Date 1710046800000) = Inr ''2024-03-10''
     \<and> format_yyyy_MM_dd new_york_2024 (Date 1710129600000) = Inr ''2024-03-11''
     \<and> format_yyyy_MM_dd new_york_2024 (Date 1710216000000) = Inr ''2024-03-12''
     \<and> startOfDay new_york_2024 (toDate (earliest s)) = Date 1709960400000
     \<and> map (dayIndex new_york_2024 s)
         [\<lparr>seg_start = Date 1709996400000, seg_end = Date 1710046799999\<rparr>,
          \<lparr>seg_start = Date 1710046800000, seg_end = Date 1710129599999\<rparr>,
          \<lparr>seg_start = Date 1710129600000, seg_end = Date 1710215999999\<rparr>,
          \<lparr>seg_start = Date 1710216000000, seg_end = Date 1710266400000\<rparr>]
         = [Some 0, Some 1, Some 1, Some 2]
     \<and> renderBarSegments new_york_2024 s (row_start (rows s ! 0)) (row_end (rows s ! 0))
         = Some (Inr (RArray boxes))
     \<and> map box_backgroundColor boxes
         = [Some (barColors ! 0), Some (barColors ! 1), Some (barColors ! 1), Some (barColors ! 2)]
     \<and> barColors ! 1 \<noteq> barColors ! 2 \<and> barColors ! 2 \<noteq> barColors ! 3"
proof -
  let ?s = "run validateIP parse
       [AddRow, Change 0 (SetStart (Some (Date 1709996400000))),
        Change 0 (SetEnd (Some (Date 1710266400000)))] init_app"
  have s: "earliest ?s = Some (Date 1709996400000)"
    "latest ?s = Some (Date 1710266400000)"
    "row_start (rows ?s ! 0) = Some (Date 1709996400000)"
    "row_end (rows ?s ! 0) = Some (Date 1710266400000)"
    by (simp_all add: run_eval)
  have fmts: "format_yyyy_MM_dd_HH_mm_ss new_york_2024 (Date 1709996400000) = Inr ''2024-03-09 10:00:00''"
    "format_yyyy_MM_dd_HH_mm_ss new_york_2024 (Date 1710266400000) = Inr ''2024-03-12 14:00:00''"
    "format_yyyy_MM_dd new_york_2024 (Date 1709996400000) = Inr ''2024-03-09''"
    "format_yyyy_MM_dd new_york_2024 (Date 1710046800000) = Inr ''2024-03-10''"
    "format_yyyy_MM_dd new_york_2024 (Date 1710129600000) = Inr ''2024-03-11''"
    "format_yyyy_MM_dd new_york_2024 (Date 1710216000000) = Inr ''2024-03-12''"
    by (simp_all add: LocalTime_def new_york_2024_def format_eval)
  have sod: "startOfDay new_york_2024 (toDate (earliest ?s)) = Date 1709960400000"
    unfolding s by (simp add: zone_eval)
  have di: "map (dayIndex new_york_2024 ?s)
         [\<lparr>seg_start = Date 1709996400000, seg_end = Date 1710046799999\<rparr>,
          \<lparr>seg_start = Date 1710046800000, seg_end = Date 1710129599999\<rparr>,
          \<lparr>seg_start = Date 1710129600000, seg_end = Date 1710215999999\<rparr>,
          \<lparr>seg_start = Date 1710216000000, seg_end = Date 1710266400000\<rparr>]
         = [Some 0, Some 1, Some 1, Some 2]"
    unfolding dayIndex_def sod by (simp add: msPerDay_def)
  have "\<exists>boxes. renderBarSegments new_york_2024 ?s (row_start (rows ?s ! 0)) (row_end (rows ?s ! 0))
         = Some (Inr (RArray boxes))
     \<and> map box_backgroundColor boxes
         = [Some (barColors ! 0), Some (barColors ! 1), Some (barColors ! 1), Some (barColors ! 2)]"
    unfolding s(3,4)
    using di
    by (simp add: renderBarSegments_def bar_segments_new_york_spring render_segment_def
        label_of_def spring_days segment_color_def js_rem_def barColors_def)
  then obtain boxes where boxes:
      "renderBarSegments new_york_2024 ?s (row_start (rows ?s ! 0)) (row_end (rows ?s ! 0))
         = Some (Inr (RArray boxes))"
      "map box_backgroundColor boxes
         = [Some (barColors ! 0), Some (barColors ! 1), Some (barColors ! 1), Some (barColors ! 2)]"
    by (elim exE conjE)
  have distinct: "barColors ! 1 \<noteq> barColors ! 2" "barColors ! 2 \<noteq> barColors ! 3"
    by (simp_all add: barColors_def)
  note facts = s(1,3,4) fmts sod di bar_segments_new_york_spring boxes distinct
  show ?thesis
    by (intro exI [of _ ?s] exI [of _ boxes] conjI) (rule refl | fact facts)+
qed

subsection \<open>The geometry under degenerate bounds\<close>

lemma unset_bounds_geometry:
  "earliest s = None \<Longrightarrow>
   calculateLeftPosition s start = Number offset \<and> calculateWidth s start end' = Num 0"
  by (simp add: calculateLeftPosition_def calculateWidth_def)

text \<open>
  C6 at equal bounds. A row is added and given the start 2024-01-01 10:00
  universal time, so both bounds are that date; then it is given the end 11:00. In
  the state after this \<^verbatim>\<open>setRows\<close>, the one the component renders before the effect
  has run, the bounds are still equal, \<^verbatim>\<open>calculateLeftPosition\<close> returns
  \<^verbatim>\<open>calc(NaN% + 5px)\<close> and \<^verbatim>\<open>calculateWidth\<close> returns \<^verbatim>\<open>Infinity\<close> for the row, in
  whatever time zone: both functions divide by the difference of the bounds and
  test them for \<^verbatim>\<open>null\<close> only. In the zone of universal time the bar of the row has
  one segment, and its element has that position and the width \<^verbatim>\<open>Infinity%\<close>.
\<close>

theorem equal_bounds_geometry:
  "\<exists>s1 bx.
     handleChange validateIP
       (run validateIP parse [AddRow, Change 0 (SetStart (Some (Date 1704103200000)))] init_app)
       0 (SetEnd (Some (Date 1704106800000))) = Inr s1
     \<and> earliest s1 = Some (Date 1704103200000) \<and> latest s1 = Some (Date 1704103200000)
     \<and> calculateLeftPosition s1 (row_start (rows s1 ! 0)) = Calc NaN 5
     \<and> calculateWidth s1 (row_start (rows s1 ! 0)) (row_end (rows s1 ! 0)) = PosInf
     \<and> renderBarSegments (fixed_zone 0) s1 (row_start (rows s1 ! 0)) (row_end (rows s1 ! 0))
         = Some (Inr (RArray [bx]))
     \<and> box_left bx = Calc NaN 5
     \<and> box_width bx = Percent PosInf"
  by (simp add: run_eval renderBarSegments_def bar_segments_def segments_loop.simps zone_eval
      render_segment_def label_of_def calculateLeftPosition_def calculateWidth_def offset_def)

subsection \<open>Editing a field\<close>

lemma handleChange_clears_ip_error:
  assumes "index < length (rows s)" and "\<forall>v. fe \<noteq> SetIp v"
  shows "\<exists>s'. handleChange validateIP s index fe = Inr s'
     \<and> err_ip (errs s' (row_errors (rows s' ! index))) = []"
  using assms by (cases fe) (simp_all add: handleChange_def Let_def)

text \<open>
  C8 at a row with a rejected address. With a validity predicate that rejects the
  address, the row carries the message \<^verbatim>\<open>Invalid IP address\<close>; editing the name of
  the row then leaves the address as it is and clears the message, because the
  \<^verbatim>\<open>else\<close> branch of \<^verbatim>\<open>handleChange\<close> runs for every field but a rejected \<^verbatim>\<open>ip\<close>.
\<close>

theorem edit_name_clears_ip_error:
  "err_ip (errs (run (\<lambda>_. False) parse [AddRow, Change 0 (SetIp ''999.1.1.1'')] init_app)
        (row_errors (rows (run (\<lambda>_. False) parse [AddRow, Change 0 (SetIp ''999.1.1.1'')] init_app) ! 0)))
     = ''Invalid IP address''
   \<and> (\<exists>s1. handleChange (\<lambda>_. False)
          (run (\<lambda>_. False) parse [AddRow, Change 0 (SetIp ''999.1.1.1'')] init_app)
          0 (SetName ''srv'') = Inr s1
        \<and> row_ip (rows s1 ! 0) = ''999.1.1.1''
        \<and> err_ip (errs s1 (row_errors (rows s1 ! 0))) = [])"
  by (simp add: run_eval)

text \<open>
  A copy shares the \<^verbatim>\<open>errors\<close> object of its original: editing the name of the
  copy clears the message of the original as well.
\<close>

lemma copy_shares_errors:
  "\<exists>s1. step (\<lambda>_. False) parse (Change 1 (SetName ''copy''))
       (run (\<lambda>_. False) parse
          [AddRow, Change 0 (SetIp ''999.1.1.1''), Change 0 (SetSelected True), CopySelected]
          init_app) = Inr s1
     \<and> length (rows s1) = 2
     \<and> row_errors (rows s1 ! 0) = row_errors (rows s1 ! 1)
     \<and> row_ip (rows s1 ! 0) = ''999.1.1.1''
     \<and> err_ip (errs s1 (row_errors (rows s1 ! 0))) = []"
  by (simp add: run_eval handleCopySelected_def)

end
